theory Spec2Isabelle
  imports Complex_Main
begin

section \<open>JavaScript numbers\<close>

text \<open>
  The analysis functions of \<^verbatim>\<open>src/src/technical-analysis.ts\<close> compute on JavaScript
  numbers. The model keeps the special values of a double (both infinities and NaN) and
  the way the operators treat them, and takes arithmetic on finite values to be exact:
  no rounding and no overflow. Zero is the positive zero; negative zero is not modelled.
\<close>

datatype jsnum = Fin real | PInf | NInf | NaN

fun js_add :: "jsnum \<Rightarrow> jsnum \<Rightarrow> jsnum" where
  "js_add NaN _ = NaN"
| "js_add _ NaN = NaN"
| "js_add (Fin a) (Fin b) = Fin (a + b)"
| "js_add PInf NInf = NaN"
| "js_add NInf PInf = NaN"
| "js_add PInf _ = PInf"
| "js_add _ PInf = PInf"
| "js_add NInf _ = NInf"
| "js_add _ NInf = NInf"

fun js_neg :: "jsnum \<Rightarrow> jsnum" where
  "js_neg (Fin a) = Fin (- a)"
| "js_neg PInf = NInf"
| "js_neg NInf = PInf"
| "js_neg NaN = NaN"

definition js_sub :: "jsnum \<Rightarrow> jsnum \<Rightarrow> jsnum" where
  "js_sub x y = js_add x (js_neg y)"

fun js_abs :: "jsnum \<Rightarrow> jsnum" where
  "js_abs (Fin a) = Fin \<bar>a\<bar>"
| "js_abs PInf = PInf"
| "js_abs NInf = PInf"
| "js_abs NaN = NaN"

fun js_mul :: "jsnum \<Rightarrow> jsnum \<Rightarrow> jsnum" where
  "js_mul NaN _ = NaN"
| "js_mul _ NaN = NaN"
| "js_mul (Fin a) (Fin b) = Fin (a * b)"
| "js_mul (Fin a) PInf = (if a = 0 then NaN else if 0 < a then PInf else NInf)"
| "js_mul (Fin a) NInf = (if a = 0 then NaN else if 0 < a then NInf else PInf)"
| "js_mul PInf (Fin b) = (if b = 0 then NaN else if 0 < b then PInf else NInf)"
| "js_mul NInf (Fin b) = (if b = 0 then NaN else if 0 < b then NInf else PInf)"
| "js_mul PInf PInf = PInf"
| "js_mul PInf NInf = NInf"
| "js_mul NInf PInf = NInf"
| "js_mul NInf NInf = PInf"

text \<open>
  Division never raises: a finite nonzero value over zero is an infinity, zero over
  zero and infinity over infinity are NaN.
\<close>

fun js_div :: "jsnum \<Rightarrow> jsnum \<Rightarrow> jsnum" where
  "js_div NaN _ = NaN"
| "js_div _ NaN = NaN"
| "js_div (Fin a) (Fin b) =
     (if b = 0 then (if a = 0 then NaN else if 0 < a then PInf else NInf)
      else Fin (a / b))"
| "js_div (Fin a) PInf = Fin 0"
| "js_div (Fin a) NInf = Fin 0"
| "js_div PInf (Fin b) = (if 0 \<le> b then PInf else NInf)"
| "js_div NInf (Fin b) = (if 0 \<le> b then NInf else PInf)"
| "js_div PInf PInf = NaN"
| "js_div PInf NInf = NaN"
| "js_div NInf PInf = NaN"
| "js_div NInf NInf = NaN"

text \<open>The comparison operators; every comparison with NaN is false.\<close>

fun js_lt :: "jsnum \<Rightarrow> jsnum \<Rightarrow> bool" where
  "js_lt NaN _ = False"
| "js_lt _ NaN = False"
| "js_lt (Fin a) (Fin b) = (a < b)"
| "js_lt _ NInf = False"
| "js_lt PInf _ = False"
| "js_lt NInf _ = True"
| "js_lt _ PInf = True"

definition js_gt :: "jsnum \<Rightarrow> jsnum \<Rightarrow> bool" where
  "js_gt x y = js_lt y x"

fun js_le :: "jsnum \<Rightarrow> jsnum \<Rightarrow> bool" where
  "js_le NaN _ = False"
| "js_le _ NaN = False"
| "js_le (Fin a) (Fin b) = (a \<le> b)"
| "js_le NInf _ = True"
| "js_le _ PInf = True"
| "js_le _ NInf = False"
| "js_le PInf _ = False"

definition js_ge :: "jsnum \<Rightarrow> jsnum \<Rightarrow> bool" where
  "js_ge x y = js_le y x"

text \<open>\<^verbatim>\<open>Math.sqrt\<close> and \<^verbatim>\<open>Math.pow(x, 2)\<close>.\<close>

fun js_sqrt :: "jsnum \<Rightarrow> jsnum" where
  "js_sqrt (Fin a) = (if a < 0 then NaN else Fin (sqrt a))"
| "js_sqrt PInf = PInf"
| "js_sqrt NInf = NaN"
| "js_sqrt NaN = NaN"

fun js_pow2 :: "jsnum \<Rightarrow> jsnum" where
  "js_pow2 (Fin a) = Fin (a ^ 2)"
| "js_pow2 PInf = PInf"
| "js_pow2 NInf = PInf"
| "js_pow2 NaN = NaN"

text \<open>
  \<^verbatim>\<open>Math.max(...xs)\<close> and \<^verbatim>\<open>Math.min(...xs)\<close>: NaN as soon as one argument is NaN,
  minus (plus) infinity for no argument at all.
\<close>

fun js_max2 :: "jsnum \<Rightarrow> jsnum \<Rightarrow> jsnum" where
  "js_max2 NaN _ = NaN"
| "js_max2 _ NaN = NaN"
| "js_max2 x y = (if js_lt x y then y else x)"

fun js_min2 :: "jsnum \<Rightarrow> jsnum \<Rightarrow> jsnum" where
  "js_min2 NaN _ = NaN"
| "js_min2 _ NaN = NaN"
| "js_min2 x y = (if js_lt y x then y else x)"

definition Math_max :: "jsnum list \<Rightarrow> jsnum" where
  "Math_max xs = foldl js_max2 NInf xs"

definition Math_min :: "jsnum list \<Rightarrow> jsnum" where
  "Math_min xs = foldl js_min2 PInf xs"

text \<open>
  Reading an array out of range gives \<^verbatim>\<open>undefined\<close>, which the arithmetic and
  comparison operators convert to NaN.
\<close>

definition js_nth :: "jsnum list \<Rightarrow> nat \<Rightarrow> jsnum" where
  "js_nth xs i = (if i < length xs then xs ! i else NaN)"

section \<open>Candles and levels\<close>

record OHLCV =
  "open" :: jsnum
  high :: jsnum
  low :: jsnum
  close :: jsnum
  volume :: jsnum
  timestamp :: int

datatype level_type = support | resistance

record level =
  price :: jsnum
  type :: level_type
  strength :: int

section \<open>Support and resistance: the extremum scans\<close>

text \<open>
  The inner loop of the resistance scan, over the indices \<open>j\<close> of the window in
  increasing order; it leaves with \<open>False\<close> at the first \<open>j \<noteq> i\<close> whose high is
  at least \<open>highs[i]\<close>.
\<close>

fun isLocalMax_loop :: "jsnum list \<Rightarrow> nat \<Rightarrow> nat list \<Rightarrow> bool" where
  "isLocalMax_loop highs i [] = True"
| "isLocalMax_loop highs i (j # js) =
     (if j \<noteq> i \<and> js_ge (js_nth highs j) (js_nth highs i) then False
      else isLocalMax_loop highs i js)"

definition isLocalMax :: "jsnum list \<Rightarrow> nat \<Rightarrow> nat \<Rightarrow> bool" where
  "isLocalMax highs lookback i = isLocalMax_loop highs i [i - lookback ..< Suc (i + lookback)]"

fun isLocalMin_loop :: "jsnum list \<Rightarrow> nat \<Rightarrow> nat list \<Rightarrow> bool" where
  "isLocalMin_loop lows i [] = True"
| "isLocalMin_loop lows i (j # js) =
     (if j \<noteq> i \<and> js_le (js_nth lows j) (js_nth lows i) then False
      else isLocalMin_loop lows i js)"

definition isLocalMin :: "jsnum list \<Rightarrow> nat \<Rightarrow> nat \<Rightarrow> bool" where
  "isLocalMin lows lookback i = isLocalMin_loop lows i [i - lookback ..< Suc (i + lookback)]"

text \<open>
  The two outer loops run \<open>i\<close> from \<open>lookback\<close> while \<open>i < length - lookback\<close> and
  push onto the shared array \<open>levels\<close>. The lookback is a count of bars, a natural
  number; for an array shorter than the lookback the bound \<open>length - lookback\<close> is
  negative in the source and \<open>0\<close> here, and the loop body never runs in either.
\<close>

fun resistance_loop :: "jsnum list \<Rightarrow> nat \<Rightarrow> nat list \<Rightarrow> level list \<Rightarrow> level list" where
  "resistance_loop highs lookback [] levels = levels"
| "resistance_loop highs lookback (i # is) levels =
     resistance_loop highs lookback is
       (if isLocalMax highs lookback i
        then levels @ [\<lparr>price = js_nth highs i, type = resistance, strength = 1\<rparr>]
        else levels)"

fun support_loop :: "jsnum list \<Rightarrow> nat \<Rightarrow> nat list \<Rightarrow> level list \<Rightarrow> level list" where
  "support_loop lows lookback [] levels = levels"
| "support_loop lows lookback (i # is) levels =
     support_loop lows lookback is
       (if isLocalMin lows lookback i
        then levels @ [\<lparr>price = js_nth lows i, type = support, strength = 1\<rparr>]
        else levels)"

text \<open>
  The first half of \<^verbatim>\<open>findSupportResistance\<close>: the array \<open>levels\<close> after the two
  scans, the candidates in the order in which they were pushed.
\<close>

definition find_levels :: "OHLCV list \<Rightarrow> nat \<Rightarrow> level list" where
  "find_levels ohlcv lookback =
     (let highs = map high ohlcv;
          lows = map low ohlcv;
          levels = resistance_loop highs lookback [lookback ..< length highs - lookback] [];
          levels = support_loop lows lookback [lookback ..< length lows - lookback] levels
      in levels)"

section \<open>Support and resistance: clustering and ranking\<close>

text \<open>
  The test of \<^verbatim>\<open>acc.find\<close>: the distance of the cluster \<open>l\<close> to the candidate,
  relative to the candidate's price, is below the threshold.
\<close>

definition near :: "jsnum \<Rightarrow> level \<Rightarrow> level \<Rightarrow> bool" where
  "near threshold lev l =
     js_lt (js_div (js_abs (js_sub (price l) (price lev))) (price lev)) threshold"

text \<open>\<^verbatim>\<open>Array.prototype.find\<close>, returning the position of the element found.\<close>

fun find_pos :: "('a \<Rightarrow> bool) \<Rightarrow> 'a list \<Rightarrow> nat option" where
  "find_pos P [] = None"
| "find_pos P (x # xs) =
     (if P x then Some 0 else map_option Suc (find_pos P xs))"

text \<open>
  The callback of \<^verbatim>\<open>levels.reduce\<close>. The cluster found is updated in place
  (strength incremented, price averaged with the candidate's); otherwise a copy of the
  candidate is pushed.
\<close>

definition cluster_step :: "jsnum \<Rightarrow> level list \<Rightarrow> level \<Rightarrow> level list" where
  "cluster_step threshold acc lev =
     (case find_pos (near threshold lev) acc of
        Some k \<Rightarrow>
          acc[k := (acc ! k)\<lparr>strength := strength (acc ! k) + 1,
                             price := js_div (js_add (price (acc ! k)) (price lev)) (Fin 2)\<rparr>]
      | None \<Rightarrow> acc @ [lev])"

definition cluster :: "jsnum \<Rightarrow> level list \<Rightarrow> level list" where
  "cluster threshold levels = foldl (cluster_step threshold) [] levels"

text \<open>
  \<^verbatim>\<open>Array.prototype.sort\<close> with a comparator is a stable sort on the engines the
  package asks for (Node 20 and later): an insertion sort that puts an element before
  the first one the comparator does not rank ahead of it. The comparator of
  \<^verbatim>\<open>findSupportResistance\<close> is \<open>b.strength - a.strength\<close>.
\<close>

fun js_insert :: "('a \<Rightarrow> 'a \<Rightarrow> int) \<Rightarrow> 'a \<Rightarrow> 'a list \<Rightarrow> 'a list" where
  "js_insert cmp x [] = [x]"
| "js_insert cmp x (y # ys) =
     (if cmp x y \<le> 0 then x # y # ys else y # js_insert cmp x ys)"

definition js_sort :: "('a \<Rightarrow> 'a \<Rightarrow> int) \<Rightarrow> 'a list \<Rightarrow> 'a list" where
  "js_sort cmp xs = foldr (js_insert cmp) xs []"

definition by_strength :: "level \<Rightarrow> level \<Rightarrow> int" where
  "by_strength a b = strength b - strength a"

definition findSupportResistance :: "OHLCV list \<Rightarrow> nat \<Rightarrow> jsnum \<Rightarrow> level list" where
  "findSupportResistance ohlcv lookback threshold =
     js_sort by_strength (cluster threshold (find_levels ohlcv lookback))"

section \<open>Sums and means\<close>

text \<open>The sum of a sequence of numbers and its arithmetic mean.\<close>

primrec js_sum :: "jsnum list \<Rightarrow> jsnum" where
  "js_sum [] = Fin 0"
| "js_sum (x # xs) = js_add x (js_sum xs)"

definition mean :: "jsnum list \<Rightarrow> jsnum" where
  "mean r = js_div (js_sum r) (Fin (real (length r)))"

section \<open>Indicators\<close>

text \<open>
  Modelled from the spec: \<^verbatim>\<open>calculateSMA\<close> hands its arguments to \<^verbatim>\<open>SMA.calculate\<close> of
  the external package \<^verbatim>\<open>technicalindicators\<close>, whose code is not among the sources.
  The specification: the arithmetic mean of the trailing \<open>period\<close> window at each index
  from \<open>period - 1\<close> on; empty if the period exceeds the length or is not positive.
\<close>

definition calculateSMA :: "jsnum list \<Rightarrow> nat \<Rightarrow> jsnum list" where
  "calculateSMA data period =
     (if period = 0 \<or> length data < period then []
      else map (\<lambda>i. mean (take period (drop (Suc i - period) data)))
               [period - 1 ..< length data])"

text \<open>
  Modelled from the spec: \<^verbatim>\<open>calculateEMA\<close> hands its arguments to \<^verbatim>\<open>EMA.calculate\<close> of
  the same package. The specification: exponential smoothing with the factor
  \<open>2 / (period + 1)\<close>, seeded from the simple average of the first \<open>period\<close> values;
  empty with fewer samples than the period.
\<close>

fun ema_from :: "jsnum \<Rightarrow> jsnum \<Rightarrow> jsnum list \<Rightarrow> jsnum list" where
  "ema_from k prev [] = []"
| "ema_from k prev (x # xs) =
     (let e = js_add (js_mul (js_sub x prev) k) prev in e # ema_from k e xs)"

definition calculateEMA :: "jsnum list \<Rightarrow> nat \<Rightarrow> jsnum list" where
  "calculateEMA data period =
     (if period = 0 \<or> length data < period then []
      else (let seed = mean (take period data)
            in seed # ema_from (Fin (2 / (real period + 1))) seed (drop period data)))"

text \<open>
  Modelled from the spec: \<^verbatim>\<open>calculateRSI\<close> hands its arguments to \<^verbatim>\<open>RSI.calculate\<close> of
  the same package. The specification: the ratio of average gain to average loss,
  mapped into \<open>[0, 100]\<close>, the averages being Wilder-smoothed over the
  period-over-period differences; empty with fewer samples than the period needs.
\<close>

definition differences :: "jsnum list \<Rightarrow> jsnum list" where
  "differences data = map (\<lambda>i. js_sub (data ! Suc i) (data ! i)) [0 ..< length data - 1]"

definition gain :: "jsnum \<Rightarrow> jsnum" where
  "gain d = (if js_gt d (Fin 0) then d else Fin 0)"

definition loss :: "jsnum \<Rightarrow> jsnum" where
  "loss d = (if js_lt d (Fin 0) then js_neg d else Fin 0)"

definition rsi_of :: "jsnum \<Rightarrow> jsnum \<Rightarrow> jsnum" where
  "rsi_of avgGain avgLoss =
     (if avgLoss = Fin 0 then Fin 100
      else js_sub (Fin 100) (js_div (Fin 100) (js_add (Fin 1) (js_div avgGain avgLoss))))"

definition wilder :: "nat \<Rightarrow> jsnum \<Rightarrow> jsnum \<Rightarrow> jsnum" where
  "wilder period avg x =
     js_div (js_add (js_mul avg (Fin (real period - 1))) x) (Fin (real period))"

fun rsi_from :: "nat \<Rightarrow> jsnum \<Rightarrow> jsnum \<Rightarrow> jsnum list \<Rightarrow> jsnum list" where
  "rsi_from period avgGain avgLoss [] = []"
| "rsi_from period avgGain avgLoss (d # ds) =
     (let g = wilder period avgGain (gain d);
          l = wilder period avgLoss (loss d)
      in rsi_of g l # rsi_from period g l ds)"

definition calculateRSI :: "jsnum list \<Rightarrow> nat \<Rightarrow> jsnum list" where
  "calculateRSI data period =
     (let ds = differences data
      in if period = 0 \<or> length ds < period then []
         else (let avgGain = mean (map gain (take period ds));
                   avgLoss = mean (map loss (take period ds))
               in rsi_of avgGain avgLoss # rsi_from period avgGain avgLoss (drop period ds)))"

section \<open>Trend detection\<close>

datatype trend = unknown | bullish | bearish | neutral

text \<open>
  \<^verbatim>\<open>xs[xs.length - 1]\<close> is \<^verbatim>\<open>undefined\<close> for an empty array. The operator \<^verbatim>\<open>!\<close> on a
  number or \<^verbatim>\<open>undefined\<close> is true for \<^verbatim>\<open>undefined\<close>, for zero and for NaN.
\<close>

definition last_element :: "'a list \<Rightarrow> 'a option" where
  "last_element xs = (if xs = [] then None else Some (last xs))"

definition js_not :: "jsnum option \<Rightarrow> bool" where
  "js_not v = (case v of None \<Rightarrow> True | Some x \<Rightarrow> x = Fin 0 \<or> x = NaN)"

definition detectTrend :: "jsnum list \<Rightarrow> nat \<Rightarrow> nat \<Rightarrow> trend" where
  "detectTrend prices shortPeriod longPeriod =
     (let shortSMA = calculateSMA prices shortPeriod;
          longSMA = calculateSMA prices longPeriod;
          recentShort = last_element shortSMA;
          recentLong = last_element longSMA
      in if js_not recentShort \<or> js_not recentLong then unknown
         else (case (recentShort, recentLong) of
                 (Some s, Some l) \<Rightarrow>
                   if js_gt s l then bullish
                   else if js_lt s l then bearish
                   else neutral
               | _ \<Rightarrow> unknown))"

section \<open>Price statistics\<close>

record price_stats =
  avgReturn :: jsnum
  stdDev :: jsnum
  sharpeRatio :: jsnum
  maxReturn :: jsnum
  minReturn :: jsnum
  winRate :: jsnum

text \<open>
  \<^verbatim>\<open>closes.slice(1).map((close, i) => (close - closes[i]) / closes[i] * 100)\<close>: the
  callback's index \<open>i\<close> counts from 0 over the slice, so \<open>closes[i]\<close> is the close
  before \<open>close\<close>. The two \<^verbatim>\<open>reduce\<close> calls are left folds from \<open>0\<close>.
\<close>

definition calculatePriceStats :: "OHLCV list \<Rightarrow> price_stats" where
  "calculatePriceStats ohlcv =
     (let closes = map close ohlcv;
          returns = map (\<lambda>(i, close). js_mul (js_div (js_sub close (js_nth closes i))
                                                       (js_nth closes i)) (Fin 100))
                        (enumerate 0 (drop 1 closes));
          avgReturn = js_div (foldl (\<lambda>a b. js_add a b) (Fin 0) returns)
                             (Fin (real (length returns)));
          variance = js_div (foldl (\<lambda>a b. js_add a (js_pow2 (js_sub b avgReturn))) (Fin 0) returns)
                            (Fin (real (length returns)));
          stdDev = js_sqrt variance
      in \<lparr>avgReturn = avgReturn,
          stdDev = stdDev,
          sharpeRatio = js_mul (js_div avgReturn stdDev) (js_sqrt (Fin 252)),
          maxReturn = Math_max returns,
          minReturn = Math_min returns,
          winRate = js_mul (js_div (Fin (real (length (filter (\<lambda>r. js_gt r (Fin 0)) returns))))
                                   (Fin (real (length returns)))) (Fin 100)\<rparr>)"

section \<open>Specification-level notions\<close>

text \<open>
  A list of levels is separated when no level lies within the relative distance
  \<open>T\<close> of a level before it, measured as the clustering step measures it.
\<close>

definition separated :: "jsnum \<Rightarrow> level list \<Rightarrow> bool" where
  "separated T xs = (\<forall>j<length xs. \<forall>i<j. \<not> near T (xs ! j) (xs ! i))"

text \<open>The same, relative to clusters \<open>acc\<close> that are already there.\<close>

fun sep_from :: "jsnum \<Rightarrow> level list \<Rightarrow> level list \<Rightarrow> bool" where
  "sep_from T acc [] = True"
| "sep_from T acc (l # ls) = ((\<forall>x\<in>set acc. \<not> near T l x) \<and> sep_from T (acc @ [l]) ls)"

text \<open>
  Index \<open>i\<close> is a strict maximum (minimum) of its window: the window
  \<open>[i - L, i + L]\<close> lies inside the sequence and every other value in it is
  strictly smaller (larger).
\<close>

definition strict_max_at :: "jsnum list \<Rightarrow> nat \<Rightarrow> nat \<Rightarrow> bool" where
  "strict_max_at highs L i =
     (L \<le> i \<and> i + L < length highs \<and>
      (\<forall>j\<in>{i - L .. i + L}. j \<noteq> i \<longrightarrow> js_lt (highs ! j) (highs ! i)))"

definition strict_min_at :: "jsnum list \<Rightarrow> nat \<Rightarrow> nat \<Rightarrow> bool" where
  "strict_min_at lows L i =
     (L \<le> i \<and> i + L < length lows \<and>
      (\<forall>j\<in>{i - L .. i + L}. j \<noteq> i \<longrightarrow> js_lt (lows ! i) (lows ! j)))"

text \<open>
  The statistics as the specification words them: the return of bar \<open>i\<close> from
  \<open>1\<close> on, the population standard deviation (the mean of the squared deviations
  from the mean, under the root), the percentage of positive returns, and what it is to
  be the maximum or the minimum of a sequence.
\<close>

definition spec_returns :: "jsnum list \<Rightarrow> jsnum list" where
  "spec_returns closes =
     map (\<lambda>i. js_mul (js_div (js_sub (closes ! i) (closes ! (i - 1))) (closes ! (i - 1))) (Fin 100))
         [1 ..< length closes]"

definition population_std_dev :: "jsnum list \<Rightarrow> jsnum" where
  "population_std_dev r = js_sqrt (mean (map (\<lambda>x. js_pow2 (js_sub x (mean r))) r))"

definition win_percentage :: "jsnum list \<Rightarrow> jsnum" where
  "win_percentage r =
     js_mul (js_div (Fin (real (card {i. i < length r \<and> js_gt (r ! i) (Fin 0)})))
                    (Fin (real (length r)))) (Fin 100)"

definition is_maximum :: "jsnum \<Rightarrow> jsnum list \<Rightarrow> bool" where
  "is_maximum m r = (m \<in> set r \<and> (\<forall>x\<in>set r. js_le x m))"

definition is_minimum :: "jsnum \<Rightarrow> jsnum list \<Rightarrow> bool" where
  "is_minimum m r = (m \<in> set r \<and> (\<forall>x\<in>set r. js_le m x))"

section \<open>Sample inputs\<close>

text \<open>A candle that opens at its low, at time \<open>t\<close>.\<close>

definition candle :: "int \<Rightarrow> real \<Rightarrow> real \<Rightarrow> real \<Rightarrow> OHLCV" where
  "candle t h l c =
     \<lparr>open = Fin l, high = Fin h, low = Fin l, close = Fin c, volume = Fin 1, timestamp = t\<rparr>"

definition sample_candles :: "OHLCV list" where
  "sample_candles =
     [candle 1 10 8 9, candle 2 12 9 10, candle 3 11 7 8, candle 4 (121 / 10) 9 12,
      candle 5 11 8 9]"

definition tied_candles :: "OHLCV list" where
  "tied_candles =
     [candle 1 5 1 3, candle 2 10 2 3, candle 3 5 3 4, candle 4 20 4 5, candle 5 5 (9 / 2) 5,
      candle 6 (201 / 10) (19 / 4) 5, candle 7 5 (39 / 8) 5, candle 8 30 (79 / 16) 6,
      candle 9 5 (159 / 32) 5]"

text \<open>
  Six candles whose scan with lookback 1 finds the highs \<open>100\<close> and \<open>102.5\<close> and
  the low \<open>101.5\<close>.
\<close>

definition drift_candles :: "OHLCV list" where
  "drift_candles =
     [candle 1 99 98 99, candle 2 100 (197 / 2) 99, candle 3 (199 / 2) 99 99,
      candle 4 (511 / 5) 102 102, candle 5 (205 / 2) (203 / 2) 102,
      candle 6 (1023 / 10) 102 102]"

definition cand :: "real \<Rightarrow> level_type \<Rightarrow> level" where
  "cand p t = \<lparr>price = Fin p, type = t, strength = 1\<rparr>"

definition flat_candles :: "OHLCV list" where
  "flat_candles = [candle 1 7 7 7, candle 2 7 7 7, candle 3 7 7 7]"

definition three_candles :: "OHLCV list" where
  "three_candles = [candle 1 100 100 100, candle 2 110 110 110, candle 3 110 99 99]"

section \<open>The clustering step\<close>

lemma find_pos_None: "find_pos P xs = None \<longleftrightarrow> (\<forall>x\<in>set xs. \<not> P x)"
  by (induction xs) auto

lemma find_pos_Some:
  "find_pos P xs = Some k \<Longrightarrow> k < length xs \<and> P (xs ! k) \<and> (\<forall>j<k. \<not> P (xs ! j))"
proof (induction xs arbitrary: k)
  case Nil
  then show ?case by simp
next
  case (Cons x xs)
  show ?case
  proof (cases "P x")
    case True
    with Cons.prems show ?thesis by simp
  next
    case False
    with Cons.prems obtain k' where k': "find_pos P xs = Some k'" "k = Suc k'"
      by auto
    from Cons.IH [OF k'(1)] False k'(2) show ?thesis
      by (auto simp: nth_Cons split: nat.splits)
  qed
qed

lemma find_pos_first:
  "k < length xs \<Longrightarrow> P (xs ! k) \<Longrightarrow> (\<forall>j<k. \<not> P (xs ! j)) \<Longrightarrow> find_pos P xs = Some k"
proof (induction xs arbitrary: k)
  case Nil
  then show ?case by simp
next
  case (Cons x xs)
  show ?case
  proof (cases k)
    case 0
    with Cons.prems show ?thesis by simp
  next
    case (Suc k')
    with Cons.prems have "\<not> P x" by auto
    moreover have "find_pos P xs = Some k'"
      using Cons.prems Suc by (intro Cons.IH) auto
    ultimately show ?thesis using Suc by simp
  qed
qed

lemma length_cluster_step:
  "length (cluster_step T acc l) =
     (if \<exists>x\<in>set acc. near T l x then length acc else Suc (length acc))"
  by (auto simp: cluster_step_def find_pos_None split: option.splits dest!: find_pos_Some)

lemma length_foldl_cluster_step:
  "length (foldl (cluster_step T) acc ls) \<le> length acc + length ls"
proof (induction ls arbitrary: acc)
  case Nil
  then show ?case by simp
next
  case (Cons l ls)
  have "length (foldl (cluster_step T) (cluster_step T acc l) ls)
          \<le> length (cluster_step T acc l) + length ls"
    by (rule Cons.IH)
  also have "\<dots> \<le> Suc (length acc) + length ls"
    by (simp add: length_cluster_step)
  finally show ?case by simp
qed

lemma foldl_cluster_step_fixed:
  "foldl (cluster_step T) acc ls = acc @ ls \<longleftrightarrow> sep_from T acc ls"
proof (induction ls arbitrary: acc)
  case Nil
  then show ?case by simp
next
  case (Cons l ls)
  show ?case
  proof (cases "\<exists>x\<in>set acc. near T l x")
    case True
    have "length (foldl (cluster_step T) (cluster_step T acc l) ls)
            \<le> length (cluster_step T acc l) + length ls"
      by (rule length_foldl_cluster_step)
    with True have "length (foldl (cluster_step T) acc (l # ls)) < length (acc @ l # ls)"
      by (simp add: length_cluster_step)
    then have "foldl (cluster_step T) acc (l # ls) \<noteq> acc @ l # ls"
      by auto
    with True show ?thesis by auto
  next
    case False
    then have "cluster_step T acc l = acc @ [l]"
      by (simp add: cluster_step_def find_pos_None [THEN iffD2])
    with False Cons.IH [of "acc @ [l]"] show ?thesis by simp
  qed
qed

lemma sep_from_iff:
  "sep_from T acc ls \<longleftrightarrow>
     (\<forall>j<length ls. (\<forall>x\<in>set acc. \<not> near T (ls ! j) x) \<and> (\<forall>i<j. \<not> near T (ls ! j) (ls ! i)))"
proof (induction ls arbitrary: acc)
  case Nil
  then show ?case by simp
next
  case (Cons l ls)
  show ?case
    by (simp add: Cons.IH All_less_Suc2 ball_Un) blast
qed

lemma level_merge_fields:
  "l\<lparr>strength := s, price := p\<rparr> = \<lparr>price = p, type = type l, strength = s\<rparr>"
  by (cases l) simp

lemma cluster_snoc: "cluster T (cs @ [c]) = cluster_step T (cluster T cs) c"
  by (simp add: cluster_def)

lemma near_positive:
  "price c = Fin p \<Longrightarrow> 0 < p \<Longrightarrow> price l = Fin q \<Longrightarrow>
   near (Fin t) c l \<longleftrightarrow> \<bar>q - p\<bar> < t * p"
  by (simp add: near_def js_sub_def pos_divide_less_eq)

section \<open>Sorting and strength accounting\<close>

lemma set_js_insert: "set (js_insert cmp x ys) = insert x (set ys)"
  by (induction ys) auto

lemma sum_js_insert: "sum_list (map f (js_insert cmp x ys)) = (f x :: int) + sum_list (map f ys)"
  by (induction ys) auto

lemma set_js_sort: "set (js_sort cmp xs) = set xs"
  by (induction xs) (auto simp: js_sort_def set_js_insert)

lemma sum_js_sort: "sum_list (map f (js_sort cmp xs)) = (sum_list (map f xs) :: int)"
  by (induction xs) (auto simp: js_sort_def sum_js_insert)

lemma sorted_js_insert:
  "sorted_wrt (\<lambda>a b. strength b \<le> strength a) ys \<Longrightarrow>
   sorted_wrt (\<lambda>a b. strength b \<le> strength a) (js_insert by_strength x ys)"
  by (induction ys) (auto simp: by_strength_def set_js_insert)

lemma sorted_js_sort:
  "sorted_wrt (\<lambda>a b. strength b \<le> strength a) (js_sort by_strength xs)"
  by (induction xs) (auto simp: js_sort_def sorted_js_insert)

lemma filter_js_insert:
  "sorted_wrt (\<lambda>a b. strength b \<le> strength a) ys \<Longrightarrow>
   filter (\<lambda>l. strength l = k) (js_insert by_strength x ys) =
     (if strength x = k then x # filter (\<lambda>l. strength l = k) ys
      else filter (\<lambda>l. strength l = k) ys)"
  by (induction ys) (auto simp: by_strength_def)

lemma filter_js_sort:
  "filter (\<lambda>l. strength l = k) (js_sort by_strength xs) = filter (\<lambda>l. strength l = k) xs"
proof (induction xs)
  case Nil
  then show ?case by (simp add: js_sort_def)
next
  case (Cons x xs)
  have "js_sort by_strength (x # xs) = js_insert by_strength x (js_sort by_strength xs)"
    by (simp add: js_sort_def)
  with Cons sorted_js_sort [of xs] show ?case
    by (simp add: filter_js_insert)
qed

lemma sum_list_map_update:
  "k < length xs \<Longrightarrow>
   sum_list (map f (xs[k := y])) = sum_list (map f xs) - f (xs ! k) + (f y :: int)"
  by (induction xs arbitrary: k) (auto split: nat.splits)

lemma sum_cluster_step:
  "strength l = 1 \<Longrightarrow>
   sum_list (map strength (cluster_step T acc l)) = sum_list (map strength acc) + 1"
  by (auto simp: cluster_step_def sum_list_map_update split: option.splits dest!: find_pos_Some)

lemma sum_foldl_cluster_step:
  "\<forall>l\<in>set ls. strength l = 1 \<Longrightarrow>
   sum_list (map strength (foldl (cluster_step T) acc ls)) =
     sum_list (map strength acc) + int (length ls)"
  by (induction ls arbitrary: acc) (auto simp: sum_cluster_step)

lemma pos_cluster_step:
  assumes "strength l = 1" and acc: "\<forall>x\<in>set acc. 1 \<le> strength x"
  shows "\<forall>x\<in>set (cluster_step T acc l). 1 \<le> strength x"
proof (cases "find_pos (near T l) acc")
  case None
  with assms show ?thesis by (simp add: cluster_step_def)
next
  case (Some k)
  then have k: "k < length acc" by (auto dest: find_pos_Some)
  then have ge: "1 \<le> strength (acc ! k)" using acc by simp
  show ?thesis
  proof
    fix x assume "x \<in> set (cluster_step T acc l)"
    then have "x \<in> insert ((acc ! k)\<lparr>strength := strength (acc ! k) + 1,
        price := js_div (js_add (price (acc ! k)) (price l)) (Fin 2)\<rparr>) (set acc)"
      using Some set_update_subset_insert [of acc k] by (auto simp: cluster_step_def)
    then show "1 \<le> strength x" using ge acc by auto
  qed
qed

lemma pos_foldl_cluster_step:
  "\<forall>l\<in>set ls. strength l = 1 \<Longrightarrow> \<forall>x\<in>set acc. 1 \<le> strength x \<Longrightarrow>
   \<forall>x\<in>set (foldl (cluster_step T) acc ls). 1 \<le> strength x"
proof (induction ls arbitrary: acc)
  case Nil
  then show ?case by simp
next
  case (Cons l ls)
  have "\<forall>x\<in>set (cluster_step T acc l). 1 \<le> strength x"
    using Cons.prems by (intro pos_cluster_step) auto
  with Cons.prems Cons.IH [of "cluster_step T acc l"] show ?case by simp
qed

section \<open>The extremum scans\<close>

lemma resistance_loop_eq:
  "resistance_loop highs L is levels =
     levels @ map (\<lambda>i. \<lparr>price = js_nth highs i, type = resistance, strength = 1\<rparr>)
                  (filter (isLocalMax highs L) is)"
  by (induction "is" arbitrary: levels) auto

lemma support_loop_eq:
  "support_loop lows L is levels =
     levels @ map (\<lambda>i. \<lparr>price = js_nth lows i, type = support, strength = 1\<rparr>)
                  (filter (isLocalMin lows L) is)"
  by (induction "is" arbitrary: levels) auto

lemma strength_find_levels: "l \<in> set (find_levels ohlcv L) \<Longrightarrow> strength l = 1"
  by (auto simp: find_levels_def Let_def resistance_loop_eq support_loop_eq)

lemma isLocalMax_loop_iff:
  "isLocalMax_loop highs i js \<longleftrightarrow>
     (\<forall>j\<in>set js. j \<noteq> i \<longrightarrow> \<not> js_ge (js_nth highs j) (js_nth highs i))"
  by (induction js) auto

lemma isLocalMin_loop_iff:
  "isLocalMin_loop lows i js \<longleftrightarrow>
     (\<forall>j\<in>set js. j \<noteq> i \<longrightarrow> \<not> js_le (js_nth lows j) (js_nth lows i))"
  by (induction js) auto

lemma not_js_le_iff: "x \<noteq> NaN \<Longrightarrow> y \<noteq> NaN \<Longrightarrow> \<not> js_le x y \<longleftrightarrow> js_lt y x"
  by (cases x; cases y) auto

lemma isLocalMax_strict:
  assumes "NaN \<notin> set highs" "L \<le> i" "i + L < length highs"
  shows "isLocalMax highs L i \<longleftrightarrow> strict_max_at highs L i"
proof -
  have "\<not> js_ge (js_nth highs j) (js_nth highs i) \<longleftrightarrow> js_lt (highs ! j) (highs ! i)"
    if "j \<in> {i - L .. i + L}" for j
  proof -
    from that assms have "j < length highs" "i < length highs" by auto
    then have "highs ! j \<noteq> NaN" "highs ! i \<noteq> NaN" "js_nth highs j = highs ! j" "js_nth highs i = highs ! i"
      using assms(1) by (auto simp: js_nth_def dest: nth_mem)
    then show ?thesis by (simp add: js_ge_def not_js_le_iff)
  qed
  then have "(\<forall>j\<in>{i - L .. i + L}. j \<noteq> i \<longrightarrow> \<not> js_ge (js_nth highs j) (js_nth highs i)) \<longleftrightarrow>
      (\<forall>j\<in>{i - L .. i + L}. j \<noteq> i \<longrightarrow> js_lt (highs ! j) (highs ! i))"
    by (intro ball_cong refl) simp
  moreover have "set [i - L ..< Suc (i + L)] = {i - L .. i + L}"
    by auto
  ultimately show ?thesis
    using assms(2,3) by (simp only: isLocalMax_def isLocalMax_loop_iff strict_max_at_def simp_thms)
qed

lemma isLocalMin_strict:
  assumes "NaN \<notin> set lows" "L \<le> i" "i + L < length lows"
  shows "isLocalMin lows L i \<longleftrightarrow> strict_min_at lows L i"
proof -
  have "\<not> js_le (js_nth lows j) (js_nth lows i) \<longleftrightarrow> js_lt (lows ! i) (lows ! j)"
    if "j \<in> {i - L .. i + L}" for j
  proof -
    from that assms have "j < length lows" "i < length lows" by auto
    then have "lows ! j \<noteq> NaN" "lows ! i \<noteq> NaN" "js_nth lows j = lows ! j" "js_nth lows i = lows ! i"
      using assms(1) by (auto simp: js_nth_def dest: nth_mem)
    then show ?thesis by (simp add: not_js_le_iff)
  qed
  then have "(\<forall>j\<in>{i - L .. i + L}. j \<noteq> i \<longrightarrow> \<not> js_le (js_nth lows j) (js_nth lows i)) \<longleftrightarrow>
      (\<forall>j\<in>{i - L .. i + L}. j \<noteq> i \<longrightarrow> js_lt (lows ! i) (lows ! j))"
    by (intro ball_cong refl) simp
  moreover have "set [i - L ..< Suc (i + L)] = {i - L .. i + L}"
    by auto
  ultimately show ?thesis
    using assms(2,3) by (simp only: isLocalMin_def isLocalMin_loop_iff strict_min_at_def simp_thms)
qed

lemma filter_upt_restrict:
  assumes "\<And>i. P i \<Longrightarrow> a \<le> i \<and> i < b" "b \<le> n"
  shows "filter P [0..<n] = filter P [a..<b]"
proof (rule sorted_distinct_set_unique)
  have "a \<le> i \<and> i < b \<and> i < n" if "P i" for i
    using assms(1) [OF that] assms(2) by simp
  then show "set (filter P [0..<n]) = set (filter P [a..<b])"
    by auto
qed (simp_all add: sorted_wrt_filter)

lemma scan_indices_max:
  assumes "NaN \<notin> set highs"
  shows "filter (isLocalMax highs L) [L ..< length highs - L] =
         filter (strict_max_at highs L) [0 ..< length highs]"
proof -
  have "filter (isLocalMax highs L) [L ..< length highs - L] =
        filter (strict_max_at highs L) [L ..< length highs - L]"
    using assms by (intro filter_cong refl isLocalMax_strict) auto
  also have "\<dots> = filter (strict_max_at highs L) [0 ..< length highs]"
    by (rule filter_upt_restrict [symmetric]) (auto simp: strict_max_at_def)
  finally show ?thesis .
qed

lemma scan_indices_min:
  assumes "NaN \<notin> set lows"
  shows "filter (isLocalMin lows L) [L ..< length lows - L] =
         filter (strict_min_at lows L) [0 ..< length lows]"
proof -
  have "filter (isLocalMin lows L) [L ..< length lows - L] =
        filter (strict_min_at lows L) [L ..< length lows - L]"
    using assms by (intro filter_cong refl isLocalMin_strict) auto
  also have "\<dots> = filter (strict_min_at lows L) [0 ..< length lows]"
    by (rule filter_upt_restrict [symmetric]) (auto simp: strict_min_at_def)
  finally show ?thesis .
qed

lemma find_levels_short: "length ohlcv < 2 * L + 1 \<Longrightarrow> find_levels ohlcv L = []"
  by (simp add: find_levels_def Let_def)

section \<open>Price statistics: folds, order and extrema\<close>

lemma js_add_assoc: "js_add (js_add x y) z = js_add x (js_add y z)"
  by (cases x; cases y; cases z) simp_all

lemma js_add_zero_left: "js_add (Fin 0) x = x"
  by (cases x) simp_all

lemma js_add_zero_right: "js_add x (Fin 0) = x"
  by (cases x) simp_all

lemma foldl_js_add: "foldl (\<lambda>a b. js_add a (f b)) a xs = js_add a (js_sum (map f xs))"
  by (induction xs arbitrary: a) (simp_all add: js_add_zero_right js_add_assoc)

lemma foldl_js_add_sum: "foldl (\<lambda>a b. js_add a b) (Fin 0) xs = js_sum xs"
  using foldl_js_add [of "\<lambda>b. b" "Fin 0" xs] by (simp add: js_add_zero_left)

lemma foldl_js_add_sum_map:
  "foldl (\<lambda>a b. js_add a (f b)) (Fin 0) xs = js_sum (map f xs)"
  by (simp add: foldl_js_add js_add_zero_left)

lemma js_sum_Fin: "js_sum (map Fin xs) = Fin (sum_list xs)"
  by (induction xs) simp_all

lemma returns_eq_spec:
  "map (\<lambda>(i, c). js_mul (js_div (js_sub c (js_nth closes i)) (js_nth closes i)) (Fin 100))
       (enumerate 0 (drop 1 closes)) = spec_returns closes"
  by (rule nth_equalityI) (auto simp: spec_returns_def nth_enumerate_eq js_nth_def)

lemma calculatePriceStats_spec:
  "calculatePriceStats ohlcv =
     (let r = spec_returns (map close ohlcv) in
      \<lparr>avgReturn = mean r, stdDev = population_std_dev r,
       sharpeRatio = js_mul (js_div (mean r) (population_std_dev r)) (js_sqrt (Fin 252)),
       maxReturn = Math_max r, minReturn = Math_min r,
       winRate = win_percentage r\<rparr>)"
  unfolding calculatePriceStats_def Let_def returns_eq_spec
  by (simp add: foldl_js_add_sum foldl_js_add_sum_map mean_def population_std_dev_def
      win_percentage_def length_filter_conv_card)

lemma js_le_refl: "x \<noteq> NaN \<Longrightarrow> js_le x x"
  by (cases x) simp_all

lemma js_le_trans: "js_le x y \<Longrightarrow> js_le y z \<Longrightarrow> js_le x z"
  by (cases x; cases y; cases z) simp_all

lemma js_lt_le: "js_lt x y \<Longrightarrow> js_le x y"
  by (cases x; cases y) simp_all

lemma js_not_lt_le: "x \<noteq> NaN \<Longrightarrow> y \<noteq> NaN \<Longrightarrow> \<not> js_lt x y \<Longrightarrow> js_le y x"
  by (cases x; cases y) simp_all

lemma js_max2_cases:
  "x \<noteq> NaN \<Longrightarrow> y \<noteq> NaN \<Longrightarrow>
   js_max2 x y \<noteq> NaN \<and> (js_max2 x y = x \<or> js_max2 x y = y) \<and>
   js_le x (js_max2 x y) \<and> js_le y (js_max2 x y)"
  by (cases x; cases y) simp_all

lemma js_min2_cases:
  "x \<noteq> NaN \<Longrightarrow> y \<noteq> NaN \<Longrightarrow>
   js_min2 x y \<noteq> NaN \<and> (js_min2 x y = x \<or> js_min2 x y = y) \<and>
   js_le (js_min2 x y) x \<and> js_le (js_min2 x y) y"
  by (cases x; cases y) simp_all

lemma foldl_js_max2:
  "a \<noteq> NaN \<Longrightarrow> NaN \<notin> set xs \<Longrightarrow>
   foldl js_max2 a xs \<noteq> NaN \<and> foldl js_max2 a xs \<in> insert a (set xs) \<and>
   js_le a (foldl js_max2 a xs) \<and> (\<forall>x\<in>set xs. js_le x (foldl js_max2 a xs))"
proof (induction xs arbitrary: a)
  case Nil
  then show ?case by (simp add: js_le_refl)
next
  case (Cons x xs)
  from Cons.prems have x: "x \<noteq> NaN" "NaN \<notin> set xs" by auto
  note m = js_max2_cases [OF Cons.prems(1) x(1)]
  from m have "js_max2 a x \<noteq> NaN" by simp
  note ih = Cons.IH [OF this x(2)]
  from ih m show ?case
    by (auto intro: js_le_trans)
qed

lemma foldl_js_min2:
  "a \<noteq> NaN \<Longrightarrow> NaN \<notin> set xs \<Longrightarrow>
   foldl js_min2 a xs \<noteq> NaN \<and> foldl js_min2 a xs \<in> insert a (set xs) \<and>
   js_le (foldl js_min2 a xs) a \<and> (\<forall>x\<in>set xs. js_le (foldl js_min2 a xs) x)"
proof (induction xs arbitrary: a)
  case Nil
  then show ?case by (simp add: js_le_refl)
next
  case (Cons x xs)
  from Cons.prems have x: "x \<noteq> NaN" "NaN \<notin> set xs" by auto
  note m = js_min2_cases [OF Cons.prems(1) x(1)]
  from m have "js_min2 a x \<noteq> NaN" by simp
  note ih = Cons.IH [OF this x(2)]
  from ih m show ?case
    by (auto intro: js_le_trans)
qed

lemma js_le_NInf: "js_le x NInf \<Longrightarrow> x = NInf"
  by (cases x) simp_all

lemma js_le_PInf: "js_le PInf x \<Longrightarrow> x = PInf"
  by (cases x) simp_all

lemma Math_max_is_maximum:
  assumes "NaN \<notin> set r" "r \<noteq> []"
  shows "is_maximum (Math_max r) r"
proof -
  from foldl_js_max2 [of NInf r] assms(1)
  have m: "Math_max r \<in> insert NInf (set r)" "\<forall>x\<in>set r. js_le x (Math_max r)"
    by (simp_all add: Math_max_def)
  have "Math_max r \<in> set r"
  proof (cases "Math_max r = NInf")
    case True
    from assms(2) obtain x where x: "x \<in> set r" by (cases r) auto
    with m(2) True have "x = NInf" by (auto dest: js_le_NInf)
    with x True show ?thesis by simp
  next
    case False
    with m(1) show ?thesis by simp
  qed
  with m(2) show ?thesis by (simp add: is_maximum_def)
qed

lemma Math_min_is_minimum:
  assumes "NaN \<notin> set r" "r \<noteq> []"
  shows "is_minimum (Math_min r) r"
proof -
  from foldl_js_min2 [of PInf r] assms(1)
  have m: "Math_min r \<in> insert PInf (set r)" "\<forall>x\<in>set r. js_le (Math_min r) x"
    by (simp_all add: Math_min_def)
  have "Math_min r \<in> set r"
  proof (cases "Math_min r = PInf")
    case True
    from assms(2) obtain x where x: "x \<in> set r" by (cases r) auto
    with m(2) True have "x = PInf" by (auto dest: js_le_PInf)
    with x True show ?thesis by simp
  next
    case False
    with m(1) show ?thesis by simp
  qed
  with m(2) show ?thesis by (simp add: is_minimum_def)
qed

lemma sqrt_100: "sqrt 100 = 10"
  using real_sqrt_abs [of 10] by simp

lemma js_sum_replicate_zero: "js_sum (replicate k (Fin 0)) = Fin 0"
  by (induction k) simp_all

lemma spec_returns_constant:
  assumes "c \<noteq> 0"
  shows "spec_returns (replicate n (Fin c)) = replicate (n - 1) (Fin 0)"
  by (rule nth_equalityI) (simp_all add: spec_returns_def js_sub_def assms)

section \<open>Trend detection: the cases\<close>

lemma detectTrend_cases:
  "detectTrend prices shortPeriod longPeriod =
     (case (last_element (calculateSMA prices shortPeriod),
            last_element (calculateSMA prices longPeriod)) of
        (Some s, Some l) \<Rightarrow>
          if s = Fin 0 \<or> s = NaN \<or> l = Fin 0 \<or> l = NaN then unknown
          else if js_lt l s then bullish
          else if js_lt s l then bearish
          else neutral
      | _ \<Rightarrow> unknown)"
  by (simp add: detectTrend_def Let_def js_not_def js_gt_def split: option.splits)

section \<open>Claims about support and resistance\<close>

text \<open>
  Claim C1, as stated, fails: clustering the output of the clustering step again, with
  the same threshold, can merge further. With lookback 1 and the default threshold
  \<open>0.02\<close> the candidates of six candles are \<open>100\<close>, \<open>102.5\<close>, \<open>101.5\<close>; they
  cluster to \<open>100.75\<close> (strength 2) and \<open>102.5\<close>. The second lies within 2 percent
  of the first, which moved after the second was opened, and a second pass merges the
  two into \<open>101.625\<close> (strength 3).
\<close>

theorem cluster_not_idempotent:
  "find_levels drift_candles 1 =
     [cand 100 resistance, cand (205 / 2) resistance, cand (203 / 2) support] \<and>
   cluster (Fin (1 / 50)) (find_levels drift_candles 1) =
     [\<lparr>price = Fin (403 / 4), type = resistance, strength = 2\<rparr>, cand (205 / 2) resistance] \<and>
   cluster (Fin (1 / 50)) (cluster (Fin (1 / 50)) (find_levels drift_candles 1)) =
     [\<lparr>price = Fin (813 / 8), type = resistance, strength = 3\<rparr>] \<and>
   cluster (Fin (1 / 50)) (cluster (Fin (1 / 50)) (find_levels drift_candles 1)) \<noteq>
     cluster (Fin (1 / 50)) (find_levels drift_candles 1)"
  by code_simp

text \<open>
  Claim C1, amended: clustering a list of levels returns the list unchanged exactly when
  no level of the list lies within the relative distance \<open>T\<close> of a level before it.
\<close>

theorem cluster_fixed_iff_separated: "cluster T xs = xs \<longleftrightarrow> separated T xs"
  using foldl_cluster_step_fixed [of T "[]" xs]
  by (simp add: cluster_def separated_def sep_from_iff)

theorem cluster_fixed_iff_separated_witness:
  "separated (Fin (1 / 50)) [cand 100 resistance, cand 105 resistance, cand 95 support] \<and>
   \<not> separated (Fin (1 / 50))
       [\<lparr>price = Fin (403 / 4), type = resistance, strength = 2\<rparr>, cand (205 / 2) resistance]"
proof -
  have "cluster (Fin (1 / 50)) [cand 100 resistance, cand 105 resistance, cand 95 support] =
      [cand 100 resistance, cand 105 resistance, cand 95 support]"
    by code_simp
  moreover have "cluster (Fin (1 / 50))
       [\<lparr>price = Fin (403 / 4), type = resistance, strength = 2\<rparr>, cand (205 / 2) resistance] \<noteq>
       [\<lparr>price = Fin (403 / 4), type = resistance, strength = 2\<rparr>, cand (205 / 2) resistance]"
    by code_simp
  ultimately show ?thesis
    by (simp only: cluster_fixed_iff_separated simp_thms)
qed

text \<open>
  Claim C3: candidates are taken in scan order, each against the clusters built from
  the candidates before it. A candidate merges into the first cluster within the relative
  distance \<open>T\<close>; the merge replaces the cluster's price by the average of the two
  prices, adds one to its strength and keeps its type. Without such a cluster, a candidate
  of strength 1 is appended as a new cluster of strength 1. For finite prices and a
  positive candidate price \<open>p\<close>, being within the relative distance is
  \<open>\<bar>q - p\<bar> < t * p\<close>.
\<close>

theorem clustering_greedy_first_match:
  "cluster T [] = [] \<and>
   (\<forall>k. k < length (cluster T cs) \<and> near T c (cluster T cs ! k) \<and>
        (\<forall>j<k. \<not> near T c (cluster T cs ! j)) \<longrightarrow>
        cluster T (cs @ [c]) =
          (cluster T cs)[k := \<lparr>price = js_div (js_add (price (cluster T cs ! k)) (price c)) (Fin 2),
                               type = type (cluster T cs ! k),
                               strength = strength (cluster T cs ! k) + 1\<rparr>]) \<and>
   ((\<forall>k<length (cluster T cs). \<not> near T c (cluster T cs ! k)) \<and> strength c = 1 \<longrightarrow>
        cluster T (cs @ [c]) =
          cluster T cs @ [\<lparr>price = price c, type = type c, strength = 1\<rparr>]) \<and>
   (price c = Fin p \<and> 0 < p \<and> price l = Fin q \<and> T = Fin t \<longrightarrow>
        near T c l = (\<bar>q - p\<bar> < t * p)) \<and>
   (c \<in> set (find_levels ohlcv L) \<longrightarrow> strength c = 1)"
proof (intro conjI allI impI)
  show "cluster T [] = []" by (simp add: cluster_def)
next
  fix k
  assume "k < length (cluster T cs) \<and> near T c (cluster T cs ! k) \<and>
        (\<forall>j<k. \<not> near T c (cluster T cs ! j))"
  then have "find_pos (near T c) (cluster T cs) = Some k"
    by (intro find_pos_first) auto
  then show "cluster T (cs @ [c]) =
          (cluster T cs)[k := \<lparr>price = js_div (js_add (price (cluster T cs ! k)) (price c)) (Fin 2),
                               type = type (cluster T cs ! k),
                               strength = strength (cluster T cs ! k) + 1\<rparr>]"
    by (simp add: cluster_snoc cluster_step_def level_merge_fields)
next
  assume a: "(\<forall>k<length (cluster T cs). \<not> near T c (cluster T cs ! k)) \<and> strength c = 1"
  then have "find_pos (near T c) (cluster T cs) = None"
    by (auto simp: find_pos_None in_set_conv_nth)
  moreover have "c = \<lparr>price = price c, type = type c, strength = 1\<rparr>"
    using a by simp
  ultimately show "cluster T (cs @ [c]) =
          cluster T cs @ [\<lparr>price = price c, type = type c, strength = 1\<rparr>]"
    by (simp add: cluster_snoc cluster_step_def)
next
  assume "price c = Fin p \<and> 0 < p \<and> price l = Fin q \<and> T = Fin t"
  then show "near T c l = (\<bar>q - p\<bar> < t * p)"
    by (simp add: near_positive)
next
  assume "c \<in> set (find_levels ohlcv L)"
  then show "strength c = 1" by (rule strength_find_levels)
qed

theorem clustering_greedy_first_match_witness:
  "cluster (Fin (1 / 50)) ([cand 100 resistance, cand (205 / 2) resistance] @ [cand (203 / 2) support]) =
     [\<lparr>price = Fin (403 / 4), type = resistance, strength = 2\<rparr>, cand (205 / 2) resistance] \<and>
   cluster (Fin (1 / 50)) ([cand 100 resistance] @ [cand (205 / 2) resistance]) =
     [cand 100 resistance, cand (205 / 2) resistance] \<and>
   near (Fin (1 / 50)) (cand (203 / 2) support) (cand 100 resistance)"
proof -
  let ?T = "Fin (1 / 50)"
  let ?a = "cand 100 resistance" and ?b = "cand (205 / 2) resistance" and ?c = "cand (203 / 2) support"
  have one: "cluster ?T [?a] = [?a]" by code_simp
  have two: "cluster ?T [?a, ?b] = [?a, ?b]" by code_simp
  have pa: "price ?a = Fin 100" "price ?b = Fin (205 / 2)" "price ?c = Fin (203 / 2)"
    "strength ?b = 1" "strength ?a = 1" "type ?a = resistance"
    by (simp_all add: cand_def)
  have "?b \<in> set (find_levels drift_candles 1)"
    by code_simp
  then have scanned: "strength ?b = 1"
    using clustering_greedy_first_match
      [where c = ?b and ohlcv = drift_candles and L = 1, THEN conjunct2, THEN conjunct2,
       THEN conjunct2, THEN conjunct2]
    by simp
  have near_ca: "near ?T ?c ?a"
    using clustering_greedy_first_match
      [where T = ?T and c = ?c and l = ?a and p = "203 / 2" and q = 100 and t = "1 / 50"] pa
    by simp
  have far_ba: "\<not> near ?T ?b ?a"
    using clustering_greedy_first_match
      [where T = ?T and c = ?b and l = ?a and p = "205 / 2" and q = 100 and t = "1 / 50"] pa
    by simp
  have merge: "cluster ?T ([?a, ?b] @ [?c]) =
      [?a, ?b][0 := \<lparr>price = js_div (js_add (price ([?a, ?b] ! 0)) (price ?c)) (Fin 2),
                      type = type ([?a, ?b] ! 0), strength = strength ([?a, ?b] ! 0) + 1\<rparr>]"
    using clustering_greedy_first_match
      [where T = ?T and cs = "[?a, ?b]" and c = ?c, THEN conjunct2, THEN conjunct1, rule_format, of 0]
      near_ca
    unfolding two by simp
  have opened: "cluster ?T ([?a] @ [?b]) = [?a] @ [\<lparr>price = price ?b, type = type ?b, strength = 1\<rparr>]"
    using clustering_greedy_first_match
      [where T = ?T and cs = "[?a]" and c = ?b, THEN conjunct2, THEN conjunct2, THEN conjunct1,
       rule_format]
      far_ba scanned
    unfolding one by simp
  from merge opened near_ca show ?thesis
    by (simp add: cand_def)
qed

text \<open>
  Claim C4: for highs and lows without NaN, the candidates are, in this order, one
  resistance level of strength 1 per index whose high is the strict maximum of its
  window, then one support level per index whose low is the strict minimum of its
  window; a sequence shorter than \<open>2 * L + 1\<close> gives no candidate and an empty result.
\<close>

theorem extremum_candidates:
  "(NaN \<notin> high ` set ohlcv \<and> NaN \<notin> low ` set ohlcv \<longrightarrow>
      find_levels ohlcv L =
        map (\<lambda>i. \<lparr>price = high (ohlcv ! i), type = resistance, strength = 1\<rparr>)
            (filter (strict_max_at (map high ohlcv) L) [0 ..< length ohlcv]) @
        map (\<lambda>i. \<lparr>price = low (ohlcv ! i), type = support, strength = 1\<rparr>)
            (filter (strict_min_at (map low ohlcv) L) [0 ..< length ohlcv])) \<and>
   (length ohlcv < 2 * L + 1 \<longrightarrow>
      find_levels ohlcv L = [] \<and> findSupportResistance ohlcv L T = [])"
proof (intro conjI impI)
  assume nan: "NaN \<notin> high ` set ohlcv \<and> NaN \<notin> low ` set ohlcv"
  have "find_levels ohlcv L =
      map (\<lambda>i. \<lparr>price = js_nth (map high ohlcv) i, type = resistance, strength = 1\<rparr>)
            (filter (strict_max_at (map high ohlcv) L) [0 ..< length ohlcv]) @
        map (\<lambda>i. \<lparr>price = js_nth (map low ohlcv) i, type = support, strength = 1\<rparr>)
            (filter (strict_min_at (map low ohlcv) L) [0 ..< length ohlcv])"
    using nan scan_indices_max [of "map high ohlcv" L] scan_indices_min [of "map low ohlcv" L]
    by (simp add: find_levels_def Let_def resistance_loop_eq support_loop_eq)
  also have "map (\<lambda>i. \<lparr>price = js_nth (map high ohlcv) i, type = resistance, strength = 1\<rparr>)
            (filter (strict_max_at (map high ohlcv) L) [0 ..< length ohlcv]) =
       map (\<lambda>i. \<lparr>price = high (ohlcv ! i), type = resistance, strength = 1\<rparr>)
            (filter (strict_max_at (map high ohlcv) L) [0 ..< length ohlcv])"
    by (rule map_cong) (auto simp: js_nth_def)
  also have "map (\<lambda>i. \<lparr>price = js_nth (map low ohlcv) i, type = support, strength = 1\<rparr>)
            (filter (strict_min_at (map low ohlcv) L) [0 ..< length ohlcv]) =
       map (\<lambda>i. \<lparr>price = low (ohlcv ! i), type = support, strength = 1\<rparr>)
            (filter (strict_min_at (map low ohlcv) L) [0 ..< length ohlcv])"
    by (rule map_cong) (auto simp: js_nth_def)
  finally show "find_levels ohlcv L =
        map (\<lambda>i. \<lparr>price = high (ohlcv ! i), type = resistance, strength = 1\<rparr>)
            (filter (strict_max_at (map high ohlcv) L) [0 ..< length ohlcv]) @
        map (\<lambda>i. \<lparr>price = low (ohlcv ! i), type = support, strength = 1\<rparr>)
            (filter (strict_min_at (map low ohlcv) L) [0 ..< length ohlcv])" .
next
  assume "length ohlcv < 2 * L + 1"
  then show "find_levels ohlcv L = []" by (rule find_levels_short)
next
  assume "length ohlcv < 2 * L + 1"
  then show "findSupportResistance ohlcv L T = []"
    by (simp add: findSupportResistance_def find_levels_short cluster_def js_sort_def)
qed

theorem extremum_candidates_witness:
  "find_levels sample_candles 1 =
     [cand 12 resistance, cand (121 / 10) resistance, cand 7 support] \<and>
   findSupportResistance (take 2 sample_candles) 1 (Fin (1 / 50)) = []"
proof -
  have nan: "NaN \<notin> high ` set sample_candles \<and> NaN \<notin> low ` set sample_candles"
    by (simp add: sample_candles_def candle_def)
  have rhs: "map (\<lambda>i. \<lparr>price = high (sample_candles ! i), type = resistance, strength = 1\<rparr>)
            (filter (strict_max_at (map high sample_candles) 1) [0 ..< length sample_candles]) @
        map (\<lambda>i. \<lparr>price = low (sample_candles ! i), type = support, strength = 1\<rparr>)
            (filter (strict_min_at (map low sample_candles) 1) [0 ..< length sample_candles]) =
        [cand 12 resistance, cand (121 / 10) resistance, cand 7 support]"
    by code_simp
  have short: "length (take 2 sample_candles) < 2 * 1 + 1"
    by (simp add: sample_candles_def)
  from extremum_candidates [of sample_candles 1 "Fin (1 / 50)"] nan
  have "find_levels sample_candles 1 = [cand 12 resistance, cand (121 / 10) resistance, cand 7 support]"
    unfolding rhs by simp
  moreover from extremum_candidates [of "take 2 sample_candles" 1 "Fin (1 / 50)"] short
  have "findSupportResistance (take 2 sample_candles) 1 (Fin (1 / 50)) = []"
    by simp
  ultimately show ?thesis by simp
qed

text \<open>
  Claim C8: the returned levels are in descending order of strength, and the levels of
  any one strength appear in the order in which the clustering step holds them, which
  is the order in which the clusters were opened.
\<close>

theorem levels_sorted_by_strength_stable:
  "sorted_wrt (\<lambda>a b. strength b \<le> strength a) (findSupportResistance ohlcv L T) \<and>
   (\<forall>k. filter (\<lambda>l. strength l = k) (findSupportResistance ohlcv L T) =
        filter (\<lambda>l. strength l = k) (cluster T (find_levels ohlcv L)))"
  by (simp add: findSupportResistance_def sorted_js_sort filter_js_sort)

theorem levels_sorted_by_strength_stable_witness:
  "cluster (Fin (1 / 50)) (find_levels tied_candles 1) =
     [cand 10 resistance, \<lparr>price = Fin (401 / 20), type = resistance, strength = 2\<rparr>,
      cand 30 resistance] \<and>
   filter (\<lambda>l. strength l = 1) (findSupportResistance tied_candles 1 (Fin (1 / 50))) =
     [cand 10 resistance, cand 30 resistance] \<and>
   findSupportResistance tied_candles 1 (Fin (1 / 50)) =
     [\<lparr>price = Fin (401 / 20), type = resistance, strength = 2\<rparr>, cand 10 resistance,
      cand 30 resistance]"
proof -
  have a: "cluster (Fin (1 / 50)) (find_levels tied_candles 1) =
     [cand 10 resistance, \<lparr>price = Fin (401 / 20), type = resistance, strength = 2\<rparr>,
      cand 30 resistance]"
    by code_simp
  have b: "findSupportResistance tied_candles 1 (Fin (1 / 50)) =
     [\<lparr>price = Fin (401 / 20), type = resistance, strength = 2\<rparr>, cand 10 resistance,
      cand 30 resistance]"
    by code_simp
  from levels_sorted_by_strength_stable [of tied_candles 1 "Fin (1 / 50)"]
  have "filter (\<lambda>l. strength l = 1) (findSupportResistance tied_candles 1 (Fin (1 / 50))) =
        filter (\<lambda>l. strength l = 1) (cluster (Fin (1 / 50)) (find_levels tied_candles 1))"
    by blast
  also have "\<dots> = [cand 10 resistance, cand 30 resistance]"
    unfolding a by (simp add: cand_def)
  finally show ?thesis using a b by simp
qed

text \<open>
  Claim C9: the strengths of the returned levels add up to the number of candidates
  the two scans found, and every returned level has strength at least 1.
\<close>

theorem strength_sum_is_candidate_count:
  "sum_list (map strength (findSupportResistance ohlcv L T)) = int (length (find_levels ohlcv L)) \<and>
   (\<forall>l\<in>set (findSupportResistance ohlcv L T). 1 \<le> strength l)"
  using sum_foldl_cluster_step [of "find_levels ohlcv L" T "[]"]
    pos_foldl_cluster_step [of "find_levels ohlcv L" "[]" T]
  by (simp add: findSupportResistance_def sum_js_sort set_js_sort cluster_def strength_find_levels)

theorem strength_sum_is_candidate_count_witness:
  "sum_list (map strength (findSupportResistance sample_candles 1 (Fin (1 / 50)))) = 3 \<and>
   length (find_levels sample_candles 1) = 3 \<and>
   findSupportResistance sample_candles 1 (Fin (1 / 50)) =
     [\<lparr>price = Fin (241 / 20), type = resistance, strength = 2\<rparr>, cand 7 support]"
proof -
  have a: "find_levels sample_candles 1 =
      [cand 12 resistance, cand (121 / 10) resistance, cand 7 support]"
    by code_simp
  have b: "findSupportResistance sample_candles 1 (Fin (1 / 50)) =
      [\<lparr>price = Fin (241 / 20), type = resistance, strength = 2\<rparr>, cand 7 support]"
    by code_simp
  from strength_sum_is_candidate_count [of sample_candles 1 "Fin (1 / 50)"]
  have "sum_list (map strength (findSupportResistance sample_candles 1 (Fin (1 / 50)))) =
      int (length (find_levels sample_candles 1))"
    by (rule conjunct1)
  then show ?thesis unfolding a b by simp
qed

section \<open>Claims about trend detection and the indicators\<close>

text \<open>
  Claim C2: the code answers \<open>unknown\<close> not only when a moving average has no value
  but also when its most recent value is zero, because the test \<^verbatim>\<open>!recentShort\<close> is true
  of the number zero. For fifty closes of \<open>0\<close> both averages have a most recent value,
  the two values are equal, and the answer is \<open>unknown\<close> where the claim says
  \<open>neutral\<close>.
\<close>

theorem detectTrend_zero_average:
  "last_element (calculateSMA (replicate 50 (Fin 0)) 20) = Some (Fin 0) \<and>
   last_element (calculateSMA (replicate 50 (Fin 0)) 50) = Some (Fin 0) \<and>
   detectTrend (replicate 50 (Fin 0)) 20 50 = unknown"
  by code_simp

text \<open>
  Claim C7: for a positive period and fewer values than the period, the three
  indicators return the empty sequence. The result type has no error value: nothing
  is raised.
\<close>

theorem indicators_empty_on_short_input:
  "0 < p \<Longrightarrow> length values < p \<Longrightarrow>
   calculateSMA values p = [] \<and> calculateEMA values p = [] \<and> calculateRSI values p = []"
  by (simp add: calculateSMA_def calculateEMA_def calculateRSI_def differences_def Let_def)

theorem indicators_empty_on_short_input_witness:
  "calculateSMA [Fin 1, Fin 2] 3 = [] \<and> calculateEMA [Fin 1, Fin 2] 3 = [] \<and>
   calculateRSI [Fin 1, Fin 2] 3 = []"
  using indicators_empty_on_short_input [of 3 "[Fin 1, Fin 2]"] by simp

section \<open>Claims about the price statistics\<close>

text \<open>
  Claim C5: for at least two candles there are \<open>n - 1\<close> returns, the returns of the
  bars \<open>1\<close> to \<open>n - 1\<close>; the average return is their mean, the standard deviation
  their population standard deviation, the Sharpe ratio the quotient of the two times
  the root of 252, the win rate the percentage of returns above zero, and, when no
  return is NaN, the maximum and minimum return are the maximum and the minimum of
  the returns.
\<close>

theorem price_stats_formulas:
  assumes "2 \<le> length ohlcv"
  shows "length (spec_returns (map close ohlcv)) = length ohlcv - 1 \<and>
     avgReturn (calculatePriceStats ohlcv) = mean (spec_returns (map close ohlcv)) \<and>
     stdDev (calculatePriceStats ohlcv) = population_std_dev (spec_returns (map close ohlcv)) \<and>
     sharpeRatio (calculatePriceStats ohlcv) =
       js_mul (js_div (mean (spec_returns (map close ohlcv)))
                      (population_std_dev (spec_returns (map close ohlcv)))) (Fin (sqrt 252)) \<and>
     winRate (calculatePriceStats ohlcv) = win_percentage (spec_returns (map close ohlcv)) \<and>
     (NaN \<notin> set (spec_returns (map close ohlcv)) \<longrightarrow>
        is_maximum (maxReturn (calculatePriceStats ohlcv)) (spec_returns (map close ohlcv)) \<and>
        is_minimum (minReturn (calculatePriceStats ohlcv)) (spec_returns (map close ohlcv)))"
proof -
  have ne: "spec_returns (map close ohlcv) \<noteq> []"
    using assms by (auto simp: spec_returns_def)
  show ?thesis
    using ne by (simp add: calculatePriceStats_spec Let_def Math_max_is_maximum Math_min_is_minimum)
      (simp add: spec_returns_def)
qed

theorem price_stats_formulas_witness:
  "calculatePriceStats three_candles =
     \<lparr>avgReturn = Fin 0, stdDev = Fin 10, sharpeRatio = Fin 0, maxReturn = Fin 10,
      minReturn = Fin (- 10), winRate = Fin 50\<rparr> \<and>
   spec_returns (map close three_candles) = [Fin 10, Fin (- 10)] \<and>
   mean [Fin 10, Fin (- 10)] = Fin 0 \<and>
   population_std_dev [Fin 10, Fin (- 10)] = Fin 10 \<and>
   win_percentage [Fin 10, Fin (- 10)] = Fin 50 \<and>
   is_maximum (Fin 10) [Fin 10, Fin (- 10)] \<and>
   is_minimum (Fin (- 10)) [Fin 10, Fin (- 10)]"
proof -
  have r: "spec_returns (map close three_candles) = [Fin 10, Fin (- 10)]"
    by code_simp
  have ev: "calculatePriceStats three_candles =
     \<lparr>avgReturn = Fin 0, stdDev = Fin 10, sharpeRatio = Fin 0, maxReturn = Fin 10,
      minReturn = Fin (- 10), winRate = Fin 50\<rparr>"
    by (simp add: calculatePriceStats_def three_candles_def candle_def js_sub_def js_nth_def
        js_gt_def Math_max_def Math_min_def sqrt_100 Let_def)
  have len: "2 \<le> length three_candles"
    by (simp add: three_candles_def)
  from price_stats_formulas [OF len] show ?thesis
    unfolding r ev by simp
qed

text \<open>
  Claim C6: for at least two candles that all close at the same finite nonzero price,
  the average return, the standard deviation and the win rate are \<open>0\<close> and the Sharpe
  ratio is NaN, the value of \<open>0 / 0\<close>.
\<close>

theorem constant_price_stats:
  assumes "2 \<le> length ohlcv" and "c \<noteq> 0" and "\<forall>x\<in>set ohlcv. close x = Fin c"
  shows "avgReturn (calculatePriceStats ohlcv) = Fin 0 \<and>
         stdDev (calculatePriceStats ohlcv) = Fin 0 \<and>
         winRate (calculatePriceStats ohlcv) = Fin 0 \<and>
         sharpeRatio (calculatePriceStats ohlcv) = NaN"
proof -
  define k where "k = length ohlcv - 1"
  have k: "0 < k" using assms(1) by (simp add: k_def)
  have "map close ohlcv = replicate (length ohlcv) (Fin c)"
    using assms(3) by (simp add: map_replicate_const [symmetric] cong: map_cong)
  then have r: "spec_returns (map close ohlcv) = replicate k (Fin 0)"
    using assms(2) by (simp add: spec_returns_constant k_def)
  have m: "mean (replicate k (Fin 0)) = Fin 0"
    using k by (simp add: mean_def js_sum_replicate_zero)
  have "population_std_dev (replicate k (Fin 0)) = js_sqrt (mean (replicate k (Fin 0)))"
    by (simp add: population_std_dev_def m js_sub_def)
  then have s: "population_std_dev (replicate k (Fin 0)) = Fin 0"
    by (simp add: m)
  have w: "win_percentage (replicate k (Fin 0)) = Fin 0"
    using k by (simp add: win_percentage_def js_gt_def)
  show ?thesis
    by (simp add: calculatePriceStats_spec Let_def r m s w)
qed

theorem constant_price_stats_witness:
  "avgReturn (calculatePriceStats flat_candles) = Fin 0 \<and>
   stdDev (calculatePriceStats flat_candles) = Fin 0 \<and>
   winRate (calculatePriceStats flat_candles) = Fin 0 \<and>
   sharpeRatio (calculatePriceStats flat_candles) = NaN"
  using constant_price_stats [of flat_candles 7]
  by (simp add: flat_candles_def candle_def)

text \<open>
  Claim C10: for fewer than two candles there is no return; the average, the standard
  deviation, the win rate and the Sharpe ratio are NaN, the maximum return is minus
  infinity and the minimum return plus infinity. The result is a value in every case.
\<close>

theorem price_stats_short_input:
  "length ohlcv < 2 \<Longrightarrow>
   calculatePriceStats ohlcv =
     \<lparr>avgReturn = NaN, stdDev = NaN, sharpeRatio = NaN, maxReturn = NInf, minReturn = PInf,
      winRate = NaN\<rparr>"
proof -
  assume "length ohlcv < 2"
  then have "drop 1 (map close ohlcv) = []" by simp
  then show ?thesis
    by (simp add: calculatePriceStats_def Math_max_def Math_min_def)
qed

theorem price_stats_short_input_witness:
  "calculatePriceStats [] =
     \<lparr>avgReturn = NaN, stdDev = NaN, sharpeRatio = NaN, maxReturn = NInf, minReturn = PInf,
      winRate = NaN\<rparr> \<and>
   calculatePriceStats [candle 1 7 6 7] =
     \<lparr>avgReturn = NaN, stdDev = NaN, sharpeRatio = NaN, maxReturn = NInf, minReturn = PInf,
      winRate = NaN\<rparr>"
  using price_stats_short_input [of "[]"] price_stats_short_input [of "[candle 1 7 6 7]"]
  by simp

end
